theory Spec2Isabelle
  imports Complex_Main
begin

section \<open>JavaScript strings and numbers\<close>

text \<open>
  Strings are character lists. The functions below are the \<open>String.prototype\<close> methods
  the program calls, on the arguments it calls them with.
\<close>

definition startsWith :: "string \<Rightarrow> string \<Rightarrow> bool" where
  "startsWith s p = (take (length p) s = p)"

definition endsWith :: "string \<Rightarrow> string \<Rightarrow> bool" where
  "endsWith s p = (length p \<le> length s \<and> drop (length s - length p) s = p)"

fun includes_str :: "string \<Rightarrow> string \<Rightarrow> bool" where
  "includes_str [] sub = (sub = [])"
| "includes_str (c # cs) sub = (startsWith (c # cs) sub \<or> includes_str cs sub)"

text \<open>\<open>s.substring(0, n)\<close>: the first \<open>n\<close> characters, the whole string when shorter.\<close>

definition substring0 :: "string \<Rightarrow> nat \<Rightarrow> string" where
  "substring0 s n = take n s"

text \<open>\<open>s.split(c)\<close> for a one-character separator: never an empty array.\<close>

fun split :: "string \<Rightarrow> char \<Rightarrow> string list" where
  "split [] c = [[]]"
| "split (x # xs) c =
     (if x = c then [] # split xs c
      else (case split xs c of
              [] \<Rightarrow> [[x]]
            | seg # segs \<Rightarrow> (x # seg) # segs))"

definition is_digit :: "char \<Rightarrow> bool" where
  "is_digit c = (c \<in> set ''0123456789'')"

text \<open>The white space \<open>parseInt\<close> skips, as far as it is ASCII.\<close>

definition is_space :: "char \<Rightarrow> bool" where
  "is_space c = (c \<in> set [CHR '' '', CHR 0x09, CHR 0x0A, CHR 0x0B, CHR 0x0C, CHR 0x0D])"

definition digit_val :: "char \<Rightarrow> nat" where
  "digit_val c = of_char c - 48"

definition dec_value :: "string \<Rightarrow> nat" where
  "dec_value ds = foldl (\<lambda>a c. 10 * a + digit_val c) 0 ds"

text \<open>
  A JavaScript number is an IEEE double. The integers of this program (seconds, exit
  codes, rounded percentages) are modelled as unbounded \<open>int\<close>, which agrees with the
  doubles below \<open>2^53\<close>; \<open>NaN\<close> is kept apart because \<open>parseInt\<close> produces it and every
  comparison with it is false.
\<close>

datatype jsnum = NaN | Num int

fun js_add :: "jsnum \<Rightarrow> jsnum \<Rightarrow> jsnum" where
  "js_add (Num a) (Num b) = Num (a + b)"
| "js_add _ _ = NaN"

fun js_sub :: "jsnum \<Rightarrow> jsnum \<Rightarrow> jsnum" where
  "js_sub (Num a) (Num b) = Num (a - b)"
| "js_sub _ _ = NaN"

fun js_mul :: "jsnum \<Rightarrow> jsnum \<Rightarrow> jsnum" where
  "js_mul (Num a) (Num b) = Num (a * b)"
| "js_mul _ _ = NaN"

text \<open>\<open>a <= b\<close> and \<open>a > b\<close>: false as soon as one side is \<open>NaN\<close>.\<close>

fun js_le :: "jsnum \<Rightarrow> jsnum \<Rightarrow> bool" where
  "js_le (Num a) (Num b) = (a \<le> b)"
| "js_le _ _ = False"

fun js_gt :: "jsnum \<Rightarrow> jsnum \<Rightarrow> bool" where
  "js_gt (Num a) (Num b) = (a > b)"
| "js_gt _ _ = False"

text \<open>
  \<open>parseInt(s, 10)\<close>: skip leading white space, read an optional sign, then the longest
  run of decimal digits; \<open>NaN\<close> when there is no digit.
\<close>

definition parseInt :: "string \<Rightarrow> jsnum" where
  "parseInt s =
     (let t = dropWhile is_space s;
          sgn = (case t of c # r \<Rightarrow> (if c = CHR ''-'' then - 1 else 1) | [] \<Rightarrow> (1::int));
          u = (case t of c # r \<Rightarrow> (if c = CHR ''-'' \<or> c = CHR ''+'' then r else t) | [] \<Rightarrow> t);
          ds = takeWhile is_digit u
      in if ds = [] then NaN else Num (sgn * int (dec_value ds)))"

text \<open>Decimal rendering of a number in a template literal.\<close>

fun show_digit :: "nat \<Rightarrow> char" where
  "show_digit n = char_of (48 + n)"

function show_nat :: "nat \<Rightarrow> string" where
  "show_nat n = (if n < 10 then [show_digit n] else show_nat (n div 10) @ [show_digit (n mod 10)])"
  by pat_completeness auto
termination
  by (relation "measure id") auto

declare show_nat.simps [simp del]

definition show_int :: "int \<Rightarrow> string" where
  "show_int i = (if i < 0 then CHR ''-'' # show_nat (nat (- i)) else show_nat (nat i))"

fun show_jsnum :: "jsnum \<Rightarrow> string" where
  "show_jsnum NaN = ''NaN''"
| "show_jsnum (Num i) = show_int i"

section \<open>Time utilities (robots/download.js, \<open>timeToSeconds\<close>)\<close>

text \<open>
  \<^verbatim>\<open>
  function timeToSeconds(timeString) {
    if (!timeString) return 0;
    const parts = timeString.toString().split(':');
    let seconds = 0;
    let multiplier = 1;
    while (parts.length > 0) {
      seconds += multiplier * parseInt(parts.pop(), 10);
      multiplier *= 60;
    }
    return seconds;
  }
  \<close>
  The loop pops the last segment until the array is empty.
\<close>

function timeToSeconds_loop :: "string list \<Rightarrow> jsnum \<Rightarrow> int \<Rightarrow> jsnum" where
  "timeToSeconds_loop parts seconds multiplier =
     (if length parts > 0
      then timeToSeconds_loop (butlast parts)
             (js_add seconds (js_mul (Num multiplier) (parseInt (last parts))))
             (multiplier * 60)
      else seconds)"
  by pat_completeness auto
termination
  by (relation "measure (\<lambda>(parts, seconds, multiplier). length parts)") auto

declare timeToSeconds_loop.simps [simp del]

definition timeToSeconds :: "string \<Rightarrow> jsnum" where
  "timeToSeconds timeString =
     (if timeString = [] then Num 0
      else timeToSeconds_loop (split timeString CHR '':'') (Num 0) 1)"

text \<open>
  The specification's wording of the same function: split on \<open>:\<close>, fold the segments
  from the right, each one weighted 60 times the one after it; 0 on empty input.
\<close>

definition parseTimeToSeconds_spec :: "string \<Rightarrow> jsnum" where
  "parseTimeToSeconds_spec text =
     (if text = [] then Num 0
      else fst (foldr (\<lambda>seg (acc, weight).
                        (js_add acc (js_mul (Num weight) (parseInt seg)), weight * 60))
                      (split text CHR '':'') (Num 0, 1)))"

section \<open>Command-line robot (robots/download.js, \<open>download\<close>)\<close>

text \<open>
  \<open>content\<close> is the object the robot receives; an absent property is \<open>None\<close>. \<open>a || b\<close>
  yields \<open>b\<close> when \<open>a\<close> is absent or the empty string.
\<close>

record content =
  startTime :: "string option"
  start' :: "string option"
  endTime :: "string option"
  end' :: "string option"
  fileName :: "string option"
  filename' :: "string option"
  url' :: string

fun js_or :: "string option \<Rightarrow> string option \<Rightarrow> string option" where
  "js_or (Some (c # cs)) b = Some (c # cs)"
| "js_or a b = b"

definition trim :: "string \<Rightarrow> string" where
  "trim s = rev (dropWhile is_space (rev (dropWhile is_space s)))"

text \<open>
  What a run of \<open>download\<close> ends with. \<open>NoInput\<close>: a time was missing and
  \<open>readline.question\<close> had no line to return.
\<close>

datatype cli_result =
    NoInput
  | InvalidDuration jsnum
  | Failed string
  | Success string

text \<open>
  A time that is missing is asked for: \<open>question\<close> returns the time to use, taking
  the next line of \<open>answers\<close> when the content has none. \<open>execSync\<close> is the
  environment: the standard output of a command, or the message of the exception it
  throws. The second component of the result lists the commands handed to \<open>execSync\<close>,
  in order: the subprocesses launched.
\<close>

fun question :: "string option \<Rightarrow> string list \<Rightarrow> (string \<times> string list) option" where
  "question (Some (c # cs)) answers = Some (c # cs, answers)"
| "question t (a # rest) = Some (a, rest)"
| "question t [] = None"

definition download_run ::
  "(string \<Rightarrow> string + string) \<Rightarrow> content \<Rightarrow> string \<Rightarrow> jsnum \<Rightarrow> cli_result \<times> string list" where
  \<open>download_run execSync c startT dur =
     (let f0 = (case js_or (js_or (fileName c) (filename' c)) (Some ''video_potong.mp4'') of
                  Some f \<Rightarrow> f | None \<Rightarrow> []);
          f = (if endsWith f0 ''.mp4'' then f0 else f0 @ ''.mp4'');
          cmd1 = ''yt-dlp -f "bestvideo[height<=1080][ext=mp4]/bestvideo" -g "'' @ url' c @ ''"'';
          cmd2 = ''yt-dlp -f "bestaudio[ext=m4a]/bestaudio" -g "'' @ url' c @ ''"''
      in case execSync cmd1 of
           Inl err \<Rightarrow> (Failed err, [cmd1])
         | Inr out1 \<Rightarrow>
             (case execSync cmd2 of
                Inl err \<Rightarrow> (Failed err, [cmd1, cmd2])
              | Inr out2 \<Rightarrow>
                  (let command = ''ffmpeg -ss '' @ startT @ '' -i "'' @ trim out1 @ ''" -ss '' @ startT
                         @ '' -i "'' @ trim out2 @ ''" -t '' @ show_jsnum dur
                         @ '' -c:v copy -c:a aac -preset ultrafast -y "'' @ f @ ''"''
                   in case execSync command of
                        Inl err \<Rightarrow> (Failed err, [cmd1, cmd2, command])
                      | Inr out3 \<Rightarrow> (Success f, [cmd1, cmd2, command]))))\<close>

definition download ::
  "(string \<Rightarrow> string + string) \<Rightarrow> string list \<Rightarrow> content \<Rightarrow> cli_result \<times> string list" where
  "download execSync answers c =
     (case question (js_or (startTime c) (start' c)) answers of
        None \<Rightarrow> (NoInput, [])
      | Some (startT, answers1) \<Rightarrow>
          (case question (js_or (endTime c) (end' c)) answers1 of
             None \<Rightarrow> (NoInput, [])
           | Some (endT, answers2) \<Rightarrow>
               (let startSec = timeToSeconds startT;
                    endSec = timeToSeconds endT;
                    dur = js_sub endSec startSec
                in if js_le dur (Num 0) then (InvalidDuration dur, [])
                   else download_run execSync c startT dur)))"

section \<open>Progress bus (server: \<open>GET /progress/:taskId\<close>, \<open>sendProgress\<close>)\<close>

datatype status = Connected | Downloading | Trimming | Cleaning | Complete | Error

text \<open>The object a progress message carries; \<open>message\<close> and \<open>filename\<close> may be absent.\<close>

record event =
  status :: status
  progress :: int
  message :: "string option"
  filename :: "string option"

text \<open>
  The two process-wide maps, keyed by task id, and what has been written on each
  response object so far. A response object is named by a number.
\<close>

record bus =
  progressStreams :: "string \<rightharpoonup> nat"
  taskProgress :: "string \<rightharpoonup> event"
  written :: "nat \<Rightarrow> event list"

definition connected_event :: event where
  "connected_event = \<lparr>status = Connected, progress = 0, message = None, filename = None\<rparr>"

definition stream_write :: "nat \<Rightarrow> event \<Rightarrow> bus \<Rightarrow> bus" where
  "stream_write res data b = b\<lparr>written := (written b)(res := written b res @ [data])\<rparr>"

text \<open>The handler of \<open>GET /progress/:taskId\<close>, answering on response object \<open>res\<close>.\<close>

definition get_progress :: "string \<Rightarrow> nat \<Rightarrow> bus \<Rightarrow> bus" where
  "get_progress taskId res b =
     (let b1 = stream_write res connected_event b
      in b1\<lparr>progressStreams := (progressStreams b1)(taskId \<mapsto> res)\<rparr>)"

text \<open>The \<open>close\<close> callback that handler registers on its request.\<close>

definition on_close :: "string \<Rightarrow> bus \<Rightarrow> bus" where
  "on_close taskId b = b\<lparr>progressStreams := (progressStreams b)(taskId := None)\<rparr>"

definition sendProgress :: "string \<Rightarrow> event \<Rightarrow> bus \<Rightarrow> bus" where
  "sendProgress taskId data b =
     (let b1 = (case progressStreams b taskId of
                  Some stream \<Rightarrow> stream_write stream data b
                | None \<Rightarrow> b)
      in b1\<lparr>taskProgress := (taskProgress b1)(taskId \<mapsto> data)\<rparr>)"

definition empty_bus :: bus where
  "empty_bus = \<lparr>progressStreams = Map.empty, taskProgress = Map.empty, written = (\<lambda>res. [])\<rparr>"

text \<open>Publishing a run of events of one task, in order.\<close>

definition publish :: "string \<Rightarrow> event list \<Rightarrow> bus \<Rightarrow> bus" where
  "publish taskId evs b = foldl (\<lambda>b1 data. sendProgress taskId data b1) b evs"

section \<open>Parsing the downloader's output\<close>

text \<open>
  \<open>output.match(/(\d+\.?\d*)%/)\<close>: the capture of the leftmost match, if any. At a given
  start the pattern needs a digit; the greedy digit run, an optional dot and a second
  digit run must then be followed by \<open>%\<close>, and giving digits back never helps, so one
  attempt per start decides.
\<close>

definition match_at :: "string \<Rightarrow> string option" where
  "match_at s =
     (let d1 = takeWhile is_digit s; r1 = dropWhile is_digit s
      in if d1 = [] then None
         else (case r1 of
                 [] \<Rightarrow> None
               | c # r2 \<Rightarrow>
                   if c = CHR ''%'' then Some d1
                   else if c = CHR ''.''
                   then (let d2 = takeWhile is_digit r2; r3 = dropWhile is_digit r2
                         in case r3 of
                              [] \<Rightarrow> None
                            | c3 # r4 \<Rightarrow> if c3 = CHR ''%'' then Some (d1 @ ''.'' @ d2) else None)
                   else None))"

fun match_percent :: "string \<Rightarrow> string option" where
  "match_percent [] = None"
| "match_percent (c # cs) =
     (case match_at (c # cs) of
        Some m \<Rightarrow> Some m
      | None \<Rightarrow> match_percent cs)"

text \<open>
  \<open>parseFloat\<close> on such a capture (digits, then possibly a dot and digits), and
  \<open>Math.round\<close>. Percentages are doubles in the program and exact rationals here: the
  comparisons and the rounding below are the program's, computed without rounding error.
\<close>

definition parseFloat :: "string \<Rightarrow> rat" where
  "parseFloat m =
     (let ip = takeWhile is_digit m;
          fp = (case dropWhile is_digit m of
                  [] \<Rightarrow> []
                | c # ds \<Rightarrow> if c = CHR ''.'' then takeWhile is_digit ds else [])
      in of_nat (dec_value ip) + of_nat (dec_value fp) / 10 ^ length fp)"

definition Math_round :: "rat \<Rightarrow> int" where
  "Math_round x = \<lfloor>x + 1 / 2\<rfloor>"

section \<open>File names (\<open>path.extname\<close>, \<open>path.basename\<close>)\<close>

text \<open>
  Every file of a task lies in one working directory (\<open>path.join(__dirname, '../../')\<close>),
  so a path is modelled by the file's name in that directory, \<open>fs.readdirSync\<close> by the
  list of names present and \<open>fs.existsSync\<close> by membership in it. \<open>path.extname\<close> is
  the part of the name from its last dot on, empty when the only dot is the first
  character; \<open>path.basename(p, ext)\<close> drops \<open>ext\<close> from the end of the name unless the name
  is \<open>ext\<close> itself.
\<close>

definition path_extname :: "string \<Rightarrow> string" where
  "path_extname name =
     (let r = rev name;
          ext = rev (takeWhile (\<lambda>c. c \<noteq> CHR ''.'') r);
          stem = drop 1 (dropWhile (\<lambda>c. c \<noteq> CHR ''.'') r)
      in if stem = [] \<or> name = ''..'' then [] else CHR ''.'' # ext)"

definition path_basename :: "string \<Rightarrow> string \<Rightarrow> string" where
  "path_basename name ext =
     (if ext \<noteq> [] \<and> endsWith name ext \<and> name \<noteq> ext
      then take (length name - length ext) name
      else name)"

section \<open>The task pipeline (server: \<open>processVideo\<close>)\<close>

text \<open>The second argument of \<open>processVideo\<close>, as the handler of \<open>POST /trim\<close> builds it.\<close>

record options =
  url :: string
  start :: string
  end_time :: string
  duration :: jsnum
  format :: string
  quality :: string
  tempFile :: string
  finalFile :: string
  out_filename :: string

datatype source = Stdout | Stderr

text \<open>
  How a child process ends: the \<open>close\<close> event with its exit code (\<open>null\<close>, here
  \<open>None\<close>, after a signal), or the \<open>error\<close> event with its message.
\<close>

datatype proc_end = Closed "int option" | SpawnError string

text \<open>
  What the environment does during one run: the directory at the start, the output
  chunks of each child process in the order they arrive, how each child ends, the files
  each child has left in the directory when it ends, and the names on which
  \<open>fs.unlinkSync\<close> throws. Directory listing is taken to succeed.
\<close>

record env =
  fs0 :: "string list"
  yt_chunks :: "(source \<times> string) list"
  yt_end :: proc_end
  yt_files :: "string list"
  ff_chunks :: "string list"
  ff_end :: proc_end
  ff_files :: "string list"
  unlink_fails :: "string \<Rightarrow> bool"

definition add_files :: "string list \<Rightarrow> string list \<Rightarrow> string list" where
  "add_files fs new = remdups (fs @ new)"

text \<open>The variables the two \<open>data\<close> handlers of the download share.\<close>

record yt_state =
  lastProgress :: rat
  errorOutput :: string

definition downloading_event :: "rat \<Rightarrow> rat \<Rightarrow> event" where
  "downloading_event scaledProgress downloadPercent =
     \<lparr>status = Downloading, progress = Math_round scaledProgress,
      message = Some (''Mengunduh video... '' @ show_int (Math_round downloadPercent) @ ''%''),
      filename = None\<rparr>"

text \<open>
  Both handlers parse the chunk alike; only the one on \<open>stderr\<close> first appends the chunk
  to \<open>errorOutput\<close>. Each returns the new state and the events it hands to
  \<open>sendProgress\<close>. \<open>scaledProgress\<close> is \<open>Math.min(5 + (downloadPercent * 0.6), 65)\<close>.
\<close>

definition scaledProgress :: "rat \<Rightarrow> rat" where
  "scaledProgress downloadPercent = min (5 + downloadPercent * (6 / 10)) 65"

definition parse_progress :: "string \<Rightarrow> yt_state \<Rightarrow> yt_state \<times> event list" where
  "parse_progress output st =
     (case match_percent output of
        None \<Rightarrow> (st, [])
      | Some m \<Rightarrow>
          (let downloadPercent = parseFloat m
           in if scaledProgress downloadPercent > lastProgress st
              then (st\<lparr>lastProgress := scaledProgress downloadPercent\<rparr>,
                    [downloading_event (scaledProgress downloadPercent) downloadPercent])
              else (st, [])))"

fun yt_on_data :: "source \<times> string \<Rightarrow> yt_state \<Rightarrow> yt_state \<times> event list" where
  "yt_on_data (Stdout, output) st = parse_progress output st"
| "yt_on_data (Stderr, output) st =
     parse_progress output (st\<lparr>errorOutput := errorOutput st @ output\<rparr>)"

fun yt_run :: "(source \<times> string) list \<Rightarrow> yt_state \<Rightarrow> yt_state \<times> event list" where
  "yt_run [] st = (st, [])"
| "yt_run (chunk # chunks) st =
     (let (st1, evs1) = yt_on_data chunk st;
          (st2, evs2) = yt_run chunks st1
      in (st2, evs1 @ evs2))"

fun show_code :: "int option \<Rightarrow> string" where
  "show_code None = ''null''"
| "show_code (Some n) = show_int n"

text \<open>How the promise around the download settles: \<open>Inl\<close> is the message of the error.\<close>

fun yt_settle :: "proc_end \<Rightarrow> string \<Rightarrow> string + unit" where
  "yt_settle (Closed code) err =
     (if code = Some 0 then Inr ()
      else Inl (''Download gagal (code '' @ show_code code @ ''): '' @ substring0 err 200))"
| "yt_settle (SpawnError msg) err = Inl msg"

definition trimming_event :: event where
  "trimming_event = \<lparr>status = Trimming, progress = 85,
                      message = Some ''Memotong video...'', filename = None\<rparr>"

fun ff_run :: "string list \<Rightarrow> event list" where
  "ff_run [] = []"
| "ff_run (output # chunks) =
     (if includes_str output ''time='' then trimming_event # ff_run chunks else ff_run chunks)"

fun ff_settle :: "proc_end \<Rightarrow> string + unit" where
  "ff_settle (Closed code) =
     (if code = Some 0 then Inr ()
      else Inl (''ffmpeg exited with code '' @ show_code code))"
| "ff_settle (SpawnError msg) = Inl msg"

definition media_ext :: "string \<Rightarrow> bool" where
  "media_ext file =
     (endsWith file ''.mp4'' \<or> endsWith file ''.mp3'' \<or> endsWith file ''.webm''
      \<or> endsWith file ''.mkv'')"

definition findDownloadedFile :: "string list \<Rightarrow> string \<Rightarrow> string" where
  "findDownloadedFile files basePath =
     (let basename = path_basename basePath (path_extname basePath);
          matches = filter (\<lambda>f. startsWith f basename
                                \<or> includes_str f (path_basename basePath ''.mp4'')) files
      in if basePath \<in> set files then basePath
         else (case filter (\<lambda>file. file \<in> set files \<and> media_ext file) matches of
                 [] \<Rightarrow> basePath
               | file # rest \<Rightarrow> file))"

text \<open>\<open>taskId.split('_')[1]\<close> inside a string concatenation.\<close>

definition task_fragment :: "string \<Rightarrow> string" where
  "task_fragment taskId =
     (case split taskId CHR ''_'' of
        a # b # rest \<Rightarrow> b
      | _ \<Rightarrow> ''undefined'')"

text \<open>
  The clean-up after a successful cut, and the one of the \<open>catch\<close> block: the files each
  one tries to delete, and the directory it leaves.
\<close>

definition success_target :: "string \<Rightarrow> options \<Rightarrow> string \<Rightarrow> bool" where
  "success_target taskId opts file =
     ((startsWith file (path_basename (tempFile opts) (path_extname (tempFile opts)))
       \<or> startsWith file (''temp_'' @ task_fragment taskId))
      \<and> file \<noteq> finalFile opts)"

definition error_target :: "string \<Rightarrow> options \<Rightarrow> string \<Rightarrow> bool" where
  "error_target taskId opts file =
     (includes_str file taskId \<or> startsWith file (path_basename (tempFile opts) ''.mp4''))"

definition unlink_all :: "(string \<Rightarrow> bool) \<Rightarrow> (string \<Rightarrow> bool) \<Rightarrow> string list \<Rightarrow> string list" where
  "unlink_all target fails files = filter (\<lambda>file. \<not> (target file \<and> \<not> fails file)) files"

definition cleanup_success :: "string \<Rightarrow> options \<Rightarrow> env \<Rightarrow> string list \<Rightarrow> string list" where
  "cleanup_success taskId opts e files = unlink_all (success_target taskId opts) (unlink_fails e) files"

definition cleanup_error :: "string \<Rightarrow> options \<Rightarrow> env \<Rightarrow> string list \<Rightarrow> string list" where
  "cleanup_error taskId opts e files = unlink_all (error_target taskId opts) (unlink_fails e) files"

definition ev :: "status \<Rightarrow> int \<Rightarrow> string \<Rightarrow> event" where
  "ev s p m = \<lparr>status = s, progress = p, message = Some m, filename = None\<rparr>"

text \<open>The fixed messages of the pipeline, in the order the source sends them.\<close>

definition start_event :: event where
  "start_event = ev Downloading 5 ''Memulai pengunduhan video...''"

definition downloaded_event :: event where
  "downloaded_event = ev Downloading 65 ''Download selesai, mempersiapkan trimming...''"

definition trim_start_event :: event where
  "trim_start_event = ev Trimming 70 ''Memotong video sesuai durasi yang dipilih...''"

definition cleaning_event :: event where
  "cleaning_event = ev Cleaning 96 ''Membersihkan file temporary...''"

definition complete_event :: "options \<Rightarrow> event" where
  "complete_event opts =
     \<lparr>status = Complete, progress = 100, message = Some ''Selesai! Mengunduh file...'',
      filename = Some (out_filename opts)\<rparr>"

definition error_event :: "string \<Rightarrow> event" where
  "error_event msg = ev Error 0 (''Error: '' @ msg)"

text \<open>The directory when the downloader has ended, and when the cutter has ended.\<close>

definition dir_downloaded :: "env \<Rightarrow> string list" where
  "dir_downloaded e = add_files (fs0 e) (yt_files e)"

definition dir_cut :: "env \<Rightarrow> string list" where
  "dir_cut e = add_files (dir_downloaded e) (ff_files e)"

definition yt_initial :: yt_state where
  "yt_initial = \<lparr>lastProgress = 5, errorOutput = []\<rparr>"

text \<open>
  The body of the \<open>try\<close> block. The result is the events handed to \<open>sendProgress\<close> so
  far, the directory, and either the message of the error thrown or nothing.
\<close>

definition try_body :: "string \<Rightarrow> options \<Rightarrow> env \<Rightarrow> event list \<times> string list \<times> (string + unit)" where
  "try_body taskId opts e =
     (let (st, evs_yt) = yt_run (yt_chunks e) yt_initial;
          evs1 = start_event # evs_yt
      in case yt_settle (yt_end e) (errorOutput st) of
           Inl err \<Rightarrow> (evs1, dir_downloaded e, Inl err)
         | Inr u \<Rightarrow>
            (let evs2 = evs1 @ [downloaded_event];
                 actualTempFile = findDownloadedFile (dir_downloaded e) (tempFile opts)
             in if actualTempFile \<notin> set (dir_downloaded e)
                then (evs2, dir_downloaded e, Inl ''File download tidak ditemukan'')
                else
                 (let evs3 = evs2 @ [trim_start_event] @ ff_run (ff_chunks e)
                  in case ff_settle (ff_end e) of
                       Inl err \<Rightarrow> (evs3, dir_cut e, Inl err)
                     | Inr u \<Rightarrow>
                        (let evs4 = evs3 @ [cleaning_event];
                             fs3 = cleanup_success taskId opts e (dir_cut e)
                         in if finalFile opts \<notin> set fs3
                            then (evs4, fs3, Inl ''File hasil trim tidak ditemukan'')
                            else (evs4 @ [complete_event opts], fs3, Inr ())))))"

text \<open>
  \<open>processVideo\<close>: the \<open>try\<close> block, and the \<open>catch\<close> block when it threw. The result is
  the sequence of events handed to \<open>sendProgress\<close> and the directory at the end.
\<close>

definition processVideo :: "string \<Rightarrow> options \<Rightarrow> env \<Rightarrow> event list \<times> string list" where
  "processVideo taskId opts e =
     (case try_body taskId opts e of
        (evs, fs, Inr u) \<Rightarrow> (evs, fs)
      | (evs, fs, Inl err) \<Rightarrow>
          (evs @ [error_event err], cleanup_error taskId opts e fs))"

section \<open>The handler of \<open>POST /trim\<close>\<close>

record trim_body =
  b_url :: string
  b_start :: string
  b_end :: string
  b_filename :: "string option"
  b_format :: string
  b_quality :: string

record trim_data =
  d_url :: string
  d_start :: string
  d_end :: string
  d_filename :: string
  d_format :: string
  d_quality :: string

datatype validation_error = BadUrl | BadTime | BadDuration

text \<open>
  Modelled from the spec: \<open>validators.validateTrimRequest\<close> and
  \<open>validators.timeToSeconds\<close> (utils/validators.js) are not among the sources. The
  specification (4.1, 4.4) has the URL match a recognised pattern, start and end each
  match a time pattern, the duration \<open>parseTimeToSeconds(end) - parseTimeToSeconds(start)\<close>
  be greater than 0, and the file name be sanitised with a default when absent. The URL
  and time patterns and the sanitiser are the collaborator's and are parameters here;
  \<open>parseTimeToSeconds\<close> is \<open>timeToSeconds\<close> above.
\<close>

definition validateTrimRequest ::
  "(string \<Rightarrow> bool) \<Rightarrow> (string \<Rightarrow> bool) \<Rightarrow> (string option \<Rightarrow> string) \<Rightarrow> trim_body
     \<Rightarrow> validation_error list + trim_data" where
  "validateTrimRequest isValidUrl isValidTime sanitizeFilename body =
     (let errors =
            (if isValidUrl (b_url body) then [] else [BadUrl])
            @ (if isValidTime (b_start body) \<and> isValidTime (b_end body) then [] else [BadTime])
            @ (if js_gt (js_sub (timeToSeconds (b_end body)) (timeToSeconds (b_start body))) (Num 0)
               then [] else [BadDuration])
      in if errors = []
         then Inr \<lparr>d_url = b_url body, d_start = b_start body, d_end = b_end body,
                   d_filename = sanitizeFilename (b_filename body),
                   d_format = b_format body, d_quality = b_quality body\<rparr>
         else Inl errors)"

datatype trim_response = BadRequest "validation_error list" | Accepted string

text \<open>
  The handler itself. \<open>now\<close> is \<open>Date.now()\<close> and \<open>rnd\<close> is
  \<open>Math.random().toString(36).substr(2, 9)\<close>. The second component is the call of
  \<open>processVideo\<close> the handler makes, if it makes one: no child process is started
  anywhere else.
\<close>

definition post_trim ::
  "(trim_body \<Rightarrow> validation_error list + trim_data) \<Rightarrow> nat \<Rightarrow> string \<Rightarrow> trim_body
     \<Rightarrow> trim_response \<times> (string \<times> options) option" where
  "post_trim validate now rnd body =
     (case validate body of
        Inl errors \<Rightarrow> (BadRequest errors, None)
      | Inr d \<Rightarrow>
          (let startSec = timeToSeconds (d_start d);
               endSec = timeToSeconds (d_end d);
               dur = js_sub endSec startSec;
               taskId = ''task_'' @ show_nat now @ ''_'' @ rnd;
               extension = (if d_format d = ''mp3'' then ''mp3'' else ''mp4'')
           in (Accepted taskId,
               Some (taskId,
                     \<lparr>url = d_url d, start = d_start d, end_time = d_end d, duration = dur,
                      format = d_format d, quality = d_quality d,
                      tempFile = ''temp_'' @ taskId @ ''.'' @ extension,
                      finalFile = d_filename d @ ''.'' @ extension,
                      out_filename = d_filename d @ ''.'' @ extension\<rparr>))))"

section \<open>Example inputs\<close>

text \<open>A request whose end lies before its start, for the robot and for the server.\<close>

definition reversed_content :: content where
  "reversed_content =
     \<lparr>startTime = None, start' = Some ''00:04:00'', endTime = None, end' = Some ''00:03:00'',
      fileName = None, filename' = None, url' = ''https://youtu.be/x''\<rparr>"

definition reversed_body :: trim_body where
  "reversed_body =
     \<lparr>b_url = ''https://youtu.be/x'', b_start = ''00:04:00'', b_end = ''00:03:00'',
      b_filename = None, b_format = ''mp4'', b_quality = ''720''\<rparr>"


definition example_id :: string where
  "example_id = ''task_17_abc''"

definition example_opts :: options where
  "example_opts =
     \<lparr>url = ''https://youtu.be/x'', start = ''00:03:00'', end_time = ''00:04:00'',
      duration = Num 60, format = ''mp4'', quality = ''720'',
      tempFile = ''temp_task_17_abc.mp4'', finalFile = ''clip.mp4'',
      out_filename = ''clip.mp4''\<rparr>"

text \<open>Everything succeeds; another task's temporary file is in the directory.\<close>

definition env_ok :: env where
  "env_ok =
     \<lparr>fs0 = [''temp_task_18_xyz.mp4''],
      yt_chunks = [(Stdout, ''[download]  50.0% of 3MiB''), (Stderr, ''WARNING: slow''),
                   (Stdout, ''[download]  10.0% of 3MiB''), (Stdout, ''[download] 100% of 3MiB'')],
      yt_end = Closed (Some 0),
      yt_files = [''temp_task_17_abc.mp4''],
      ff_chunks = [''frame=1 time=00:00:01'', ''video:1kB''],
      ff_end = Closed (Some 0),
      ff_files = [''clip.mp4''],
      unlink_fails = (\<lambda>file. False)\<rparr>"

text \<open>The downloader exits with code 1.\<close>

definition env_yt_fails :: env where
  "env_yt_fails = env_ok\<lparr>yt_end := Closed (Some 1), yt_chunks := [(Stderr, ''ERROR: unavailable'')]\<rparr>"

text \<open>The cutter exits with code 1, and the one that exits with 0 without writing its output.\<close>

definition env_ff_fails :: env where
  "env_ff_fails = env_ok\<lparr>ff_end := Closed (Some 1), ff_files := []\<rparr>"

definition env_no_output :: env where
  "env_no_output = env_ok\<lparr>ff_files := []\<rparr>"



text \<open>A captured error text of 201 characters, and two chunks close to each other.\<close>

definition long_stderr :: string where
  "long_stderr = replicate 200 CHR ''a'' @ ''Z''"

definition chunk_1 :: string where
  "chunk_1 = ''[download]   1.0% of 3MiB''"

definition chunk_1_5 :: string where
  "chunk_1_5 = ''[download]   1.5% of 3MiB''"

section \<open>Time parsing\<close>

lemma timeToSeconds_loop_foldr:
  "timeToSeconds_loop parts s m =
     fst (foldr (\<lambda>seg (acc, weight).
                   (js_add acc (js_mul (Num weight) (parseInt seg)), weight * 60))
                parts (s, m))"
proof (induction parts arbitrary: s m rule: rev_induct)
  case Nil
  show ?case by (subst timeToSeconds_loop.simps) simp
next
  case (snoc x xs)
  show ?case
    by (subst timeToSeconds_loop.simps) (simp add: snoc.IH)
qed

text \<open>
  C7. \<open>timeToSeconds\<close> splits its input on \<open>:\<close> and folds the segments from right to
  left, each segment weighted 60 times the one to its right (seconds, minutes, hours):
  the loop of the source computes exactly the fold the specification describes. In
  particular \<open>00:03:01\<close> gives 181, \<open>04:05\<close> gives 245, and the empty input gives 0.
\<close>

theorem timeToSeconds_is_fold:
  "timeToSeconds s = parseTimeToSeconds_spec s
   \<and> timeToSeconds ''00:03:01'' = Num 181
   \<and> timeToSeconds ''04:05'' = Num 245
   \<and> timeToSeconds [] = Num 0"
proof -
  have a: "timeToSeconds s = parseTimeToSeconds_spec s"
    unfolding timeToSeconds_def parseTimeToSeconds_spec_def timeToSeconds_loop_foldr by simp
  have b: "timeToSeconds ''00:03:01'' = Num 181" by code_simp
  have c: "timeToSeconds ''04:05'' = Num 245" by code_simp
  have d: "timeToSeconds [] = Num 0" by (simp add: timeToSeconds_def)
  from a b c d show ?thesis by simp
qed

section \<open>Validation of the duration\<close>

text \<open>
  C4. A request whose duration \<open>timeToSeconds(end) - timeToSeconds(start)\<close> is at most 0
  is rejected before any child process is launched. For the command-line robot: with
  the start and end time the run uses (given or asked for), \<open>download\<close> reports the
  invalid duration and hands no command to \<open>execSync\<close>. For the server: the handler of
  \<open>POST /trim\<close> answers 400 with the validator's errors and does not call
  \<open>processVideo\<close>; here the validator is the one described by the specification.
\<close>

theorem nonpositive_duration_rejected:
  "(\<forall>startT endT answers1 answers2.
      question (js_or (startTime c) (start' c)) answers = Some (startT, answers1)
      \<and> question (js_or (endTime c) (end' c)) answers1 = Some (endT, answers2)
      \<and> js_le (js_sub (timeToSeconds endT) (timeToSeconds startT)) (Num 0)
      \<longrightarrow> download execSync answers c
            = (InvalidDuration (js_sub (timeToSeconds endT) (timeToSeconds startT)), []))
   \<and> (js_le (js_sub (timeToSeconds (b_end body)) (timeToSeconds (b_start body))) (Num 0)
      \<longrightarrow> (\<exists>errors. BadDuration \<in> set errors
            \<and> post_trim (validateTrimRequest isValidUrl isValidTime sanitizeFilename) now rnd body
                = (BadRequest errors, None)))"
proof -
  have cli: "download execSync answers c
            = (InvalidDuration (js_sub (timeToSeconds endT) (timeToSeconds startT)), [])"
    if "question (js_or (startTime c) (start' c)) answers = Some (startT, answers1)"
       "question (js_or (endTime c) (end' c)) answers1 = Some (endT, answers2)"
       "js_le (js_sub (timeToSeconds endT) (timeToSeconds startT)) (Num 0)"
    for startT endT answers1 answers2
    using that by (simp add: download_def)
  have le_gt: "js_le d (Num 0) \<Longrightarrow> \<not> js_gt d (Num 0)" for d
    by (cases d) auto
  have web: "\<exists>errors. BadDuration \<in> set errors
            \<and> post_trim (validateTrimRequest isValidUrl isValidTime sanitizeFilename) now rnd body
                = (BadRequest errors, None)"
    if "js_le (js_sub (timeToSeconds (b_end body)) (timeToSeconds (b_start body))) (Num 0)"
    using le_gt[OF that] by (simp add: post_trim_def validateTrimRequest_def)
  from cli web show ?thesis by blast
qed

theorem nonpositive_duration_rejected_witness:
  "question (js_or (startTime reversed_content) (start' reversed_content)) []
     = Some (''00:04:00'', [])
   \<and> question (js_or (endTime reversed_content) (end' reversed_content)) []
     = Some (''00:03:00'', [])
   \<and> js_le (js_sub (timeToSeconds ''00:03:00'') (timeToSeconds ''00:04:00'')) (Num 0)
   \<and> download (\<lambda>cmd. Inr []) [] reversed_content = (InvalidDuration (Num (- 60)), [])
   \<and> js_le (js_sub (timeToSeconds (b_end reversed_body)) (timeToSeconds (b_start reversed_body)))
        (Num 0)
   \<and> (\<exists>errors. BadDuration \<in> set errors
        \<and> post_trim (validateTrimRequest (\<lambda>u. True) (\<lambda>t. True) (\<lambda>f. ''clip'')) 17 ''abc''
              reversed_body
            = (BadRequest errors, None))"
proof -
  have t3: "timeToSeconds ''00:03:00'' = Num 180" by code_simp
  have t4: "timeToSeconds ''00:04:00'' = Num 240" by code_simp
  have q1: "question (js_or (startTime reversed_content) (start' reversed_content)) []
              = Some (''00:04:00'', [])"
    by (simp add: reversed_content_def)
  have q2: "question (js_or (endTime reversed_content) (end' reversed_content)) []
              = Some (''00:03:00'', [])"
    by (simp add: reversed_content_def)
  have d: "js_le (js_sub (timeToSeconds ''00:03:00'') (timeToSeconds ''00:04:00'')) (Num 0)"
    by (simp add: t3 t4)
  have d2: "js_le (js_sub (timeToSeconds (b_end reversed_body))
                          (timeToSeconds (b_start reversed_body))) (Num 0)"
    by (simp add: reversed_body_def t3 t4)
  note inst = nonpositive_duration_rejected
    [of reversed_content "[]" "\<lambda>cmd. Inr []" reversed_body
        "\<lambda>u. True" "\<lambda>t. True" "\<lambda>f. ''clip''" 17 "''abc''"]
  from inst q1 q2 d have "download (\<lambda>cmd. Inr []) [] reversed_content
      = (InvalidDuration (js_sub (timeToSeconds ''00:03:00'') (timeToSeconds ''00:04:00'')), [])"
    by blast
  then have e1: "download (\<lambda>cmd. Inr []) [] reversed_content = (InvalidDuration (Num (- 60)), [])"
    by (simp add: t3 t4)
  from inst d2 have e2: "\<exists>errors. BadDuration \<in> set errors
        \<and> post_trim (validateTrimRequest (\<lambda>u. True) (\<lambda>t. True) (\<lambda>f. ''clip'')) 17 ''abc''
              reversed_body
            = (BadRequest errors, None)"
    by blast
  from q1 q2 d e1 d2 e2 show ?thesis by blast
qed

section \<open>The events of a run\<close>

lemma Math_round_mono: "x \<le> y \<Longrightarrow> Math_round x \<le> Math_round y"
  by (simp add: Math_round_def floor_mono)

lemma Math_round_of_int: "Math_round (of_int n) = n"
proof -
  have "\<lfloor>(1 / 2)::rat\<rfloor> = 0" by (rule floor_unique) simp_all
  then show ?thesis by (simp add: Math_round_def)
qed

lemma Math_round_5: "Math_round 5 = 5" and Math_round_65: "Math_round 65 = 65"
  using Math_round_of_int[of 5] Math_round_of_int[of 65] by simp_all

lemma const_sorted: "(\<forall>d\<in>set xs. f d = (c::int)) \<Longrightarrow> sorted (map f xs)"
  by (induction xs) auto

lemma parse_progress_inv:
  assumes "parse_progress out st = (st', evs)"
  shows "lastProgress st \<le> lastProgress st' \<and> lastProgress st' \<le> max (lastProgress st) 65
         \<and> (\<forall>d\<in>set evs. status d = Downloading \<and> progress d = Math_round (lastProgress st'))"
  using assms
  by (auto simp: parse_progress_def Let_def downloading_event_def scaledProgress_def
           split: option.splits if_splits)

lemma yt_on_data_inv:
  assumes "yt_on_data chunk st = (st', evs)"
  shows "lastProgress st \<le> lastProgress st' \<and> lastProgress st' \<le> max (lastProgress st) 65
         \<and> (\<forall>d\<in>set evs. status d = Downloading \<and> progress d = Math_round (lastProgress st'))"
proof (cases chunk)
  case (Pair src out)
  show ?thesis
  proof (cases src)
    case Stdout
    with Pair assms parse_progress_inv[of out st st' evs] show ?thesis by simp
  next
    case Stderr
    with Pair assms
      parse_progress_inv[of out "st\<lparr>errorOutput := errorOutput st @ out\<rparr>" st' evs]
    show ?thesis by simp
  qed
qed

lemma yt_run_inv:
  "yt_run chunks st = (st', evs) \<Longrightarrow>
     lastProgress st \<le> lastProgress st' \<and> lastProgress st' \<le> max (lastProgress st) 65
     \<and> sorted (map progress evs)
     \<and> (\<forall>d\<in>set evs. status d = Downloading
            \<and> Math_round (lastProgress st) \<le> progress d
            \<and> progress d \<le> Math_round (lastProgress st'))"
proof (induction chunks arbitrary: st st' evs)
  case Nil
  then show ?case by simp
next
  case (Cons chunk chunks)
  obtain st1 evs1 where a: "yt_on_data chunk st = (st1, evs1)" by (cases "yt_on_data chunk st")
  obtain st2 evs2 where b: "yt_run chunks st1 = (st2, evs2)" by (cases "yt_run chunks st1")
  from Cons.prems a b have c: "st' = st2" "evs = evs1 @ evs2" by simp_all
  note A = yt_on_data_inv[OF a]
  note B = Cons.IH[OF b]
  have m1: "Math_round (lastProgress st) \<le> Math_round (lastProgress st1)"
    using A by (simp add: Math_round_mono)
  have m2: "Math_round (lastProgress st1) \<le> Math_round (lastProgress st2)"
    using B by (simp add: Math_round_mono)
  have s1: "sorted (map progress evs1)"
    using A by (intro const_sorted[of evs1 progress "Math_round (lastProgress st1)"]) simp
  have s: "sorted (map progress (evs1 @ evs2))"
    using A B s1 by (auto simp: sorted_append)
  show ?case
    unfolding c using A B m1 m2 s by (auto simp: max_def split: if_splits)
qed

lemma yt_run_initial:
  assumes "yt_run chunks yt_initial = (st, evs)"
  shows "sorted (map progress evs)
         \<and> (\<forall>d\<in>set evs. status d = Downloading \<and> 5 \<le> progress d \<and> progress d \<le> 65)"
proof -
  note I = yt_run_inv[OF assms]
  from I have le: "lastProgress st \<le> 65" by (simp add: yt_initial_def)
  have "Math_round (lastProgress st) \<le> 65"
    using Math_round_mono[OF le] by (simp add: Math_round_65)
  with I show ?thesis by (fastforce simp: Math_round_5 yt_initial_def)
qed

lemma ff_run_events: "d \<in> set (ff_run chunks) \<Longrightarrow> d = trimming_event"
  by (induction chunks) (auto split: if_splits)

lemma ff_run_replicate:
  "ff_run chunks
     = replicate (length (filter (\<lambda>out. includes_str out ''time='') chunks)) trimming_event"
  by (induction chunks) auto

text \<open>The five ways the \<open>try\<close> block ends, with the events sent and the directory left.\<close>

lemma try_body_shape:
  assumes y: "yt_run (yt_chunks e) yt_initial = (st, evs_yt)"
  shows
   "(\<exists>err. yt_settle (yt_end e) (errorOutput st) = Inl err
        \<and> try_body taskId opts e = (start_event # evs_yt, dir_downloaded e, Inl err))
  \<or> (yt_settle (yt_end e) (errorOutput st) = Inr ()
        \<and> findDownloadedFile (dir_downloaded e) (tempFile opts) \<notin> set (dir_downloaded e)
        \<and> try_body taskId opts e
            = (start_event # evs_yt @ [downloaded_event], dir_downloaded e,
               Inl ''File download tidak ditemukan''))
  \<or> (\<exists>err. yt_settle (yt_end e) (errorOutput st) = Inr ()
        \<and> findDownloadedFile (dir_downloaded e) (tempFile opts) \<in> set (dir_downloaded e)
        \<and> ff_settle (ff_end e) = Inl err
        \<and> try_body taskId opts e
            = (start_event # evs_yt @ [downloaded_event, trim_start_event] @ ff_run (ff_chunks e),
               dir_cut e, Inl err))
  \<or> (yt_settle (yt_end e) (errorOutput st) = Inr ()
        \<and> findDownloadedFile (dir_downloaded e) (tempFile opts) \<in> set (dir_downloaded e)
        \<and> ff_settle (ff_end e) = Inr ()
        \<and> finalFile opts \<notin> set (cleanup_success taskId opts e (dir_cut e))
        \<and> try_body taskId opts e
            = (start_event # evs_yt @ [downloaded_event, trim_start_event] @ ff_run (ff_chunks e)
                 @ [cleaning_event],
               cleanup_success taskId opts e (dir_cut e), Inl ''File hasil trim tidak ditemukan''))
  \<or> (yt_settle (yt_end e) (errorOutput st) = Inr ()
        \<and> findDownloadedFile (dir_downloaded e) (tempFile opts) \<in> set (dir_downloaded e)
        \<and> ff_settle (ff_end e) = Inr ()
        \<and> finalFile opts \<in> set (cleanup_success taskId opts e (dir_cut e))
        \<and> try_body taskId opts e
            = (start_event # evs_yt @ [downloaded_event, trim_start_event] @ ff_run (ff_chunks e)
                 @ [cleaning_event, complete_event opts],
               cleanup_success taskId opts e (dir_cut e), Inr ()))"
  unfolding try_body_def y
  by (simp add: Let_def split: sum.split)

text \<open>The events before a possible error message never go down.\<close>

lemma try_body_events:
  assumes t: "try_body taskId opts e = (evs, fs, r)"
  shows "sorted (map progress evs) \<and> evs \<noteq> []
         \<and> (\<forall>d\<in>set evs. status d \<noteq> Error)
         \<and> (case r of Inr u \<Rightarrow> status (last evs) = Complete \<and> progress (last evs) = 100
                      | Inl err \<Rightarrow> True)"
proof -
  obtain st evs_yt where y: "yt_run (yt_chunks e) yt_initial = (st, evs_yt)"
    by (cases "yt_run (yt_chunks e) yt_initial")
  from yt_run_initial[OF y] have Y1: "sorted (map progress evs_yt)"
    and Y2: "\<And>d. d \<in> set evs_yt \<Longrightarrow> status d = Downloading \<and> 5 \<le> progress d \<and> progress d \<le> 65"
    by simp_all
  have F: "\<And>d. d \<in> set (ff_run (ff_chunks e)) \<Longrightarrow> status d = Trimming \<and> progress d = 85"
    by (auto dest!: ff_run_events simp: trimming_event_def)
  have Fs: "sorted (map progress (ff_run (ff_chunks e)))"
    using F by (intro const_sorted[of _ progress 85]) simp
  have c5: "sorted (map progress (start_event # evs_yt @ [downloaded_event, trim_start_event]
                     @ ff_run (ff_chunks e) @ [cleaning_event, complete_event opts]))"
    using Y1 Y2 F Fs
    by (auto simp: sorted_append start_event_def downloaded_event_def trim_start_event_def
                   cleaning_event_def complete_event_def ev_def)
       (use Y2 in force)+
  have ne: "\<And>d. d \<in> set (start_event # evs_yt @ [downloaded_event, trim_start_event]
                     @ ff_run (ff_chunks e) @ [cleaning_event, complete_event opts])
              \<Longrightarrow> status d \<noteq> Error"
    using Y2 F
    by (auto simp: start_event_def downloaded_event_def trim_start_event_def
                   cleaning_event_def complete_event_def ev_def)
  from try_body_shape[OF y, of taskId opts] show ?thesis
    unfolding t using c5 ne
    by (elim disjE exE conjE) (auto simp: sorted_append complete_event_def)
qed

text \<open>
  C1, as the code has it. In every run the progress values handed to \<open>sendProgress\<close>
  never decrease from the first \<open>downloading\<close> event up to the last event that is not an
  error; an \<open>error\<close> event can only be the last one, and it reports 0. Every run ends
  with \<open>complete\<close> at 100 or with \<open>error\<close> at 0.
\<close>

theorem progress_monotone_until_error:
  "sorted (map progress (filter (\<lambda>d. status d \<noteq> Error) (fst (processVideo taskId opts e))))
   \<and> Error \<notin> status ` set (butlast (fst (processVideo taskId opts e)))
   \<and> (status (last (fst (processVideo taskId opts e))) = Complete
        \<and> progress (last (fst (processVideo taskId opts e))) = 100
      \<or> status (last (fst (processVideo taskId opts e))) = Error
        \<and> progress (last (fst (processVideo taskId opts e))) = 0)"
proof -
  obtain evs fs r where t: "try_body taskId opts e = (evs, fs, r)"
    by (cases "try_body taskId opts e")
  note T = try_body_events[OF t]
  have f: "filter (\<lambda>d. status d \<noteq> Error) evs = evs"
    using T by (auto simp: filter_id_conv)
  show ?thesis
  proof (cases r)
    case (Inl err)
    then have p: "fst (processVideo taskId opts e) = evs @ [error_event err]"
      by (simp add: processVideo_def t)
    have b: "set (butlast (evs @ [error_event err])) = set evs" by simp
    show ?thesis unfolding p using T f b by (auto simp: ev_def error_event_def)
  next
    case (Inr u)
    then have p: "fst (processVideo taskId opts e) = evs"
      by (simp add: processVideo_def t)
    have b: "set (butlast evs) \<subseteq> set evs" by (auto dest: in_set_butlastD)
    show ?thesis unfolding p using T f Inr b by force
  qed
qed

text \<open>
  C1 as stated fails: when the downloader exits with code 1 the values are 5, then 0.
\<close>

theorem progress_drops_on_error:
  "\<not> sorted (map progress (fst (processVideo example_id example_opts env_yt_fails)))"
  by code_simp

section \<open>Scaling and forwarding of the downloader's percentage\<close>

lemma parse_progress_gate:
  "parse_progress out st =
     (case match_percent out of
        None \<Rightarrow> (st, [])
      | Some m \<Rightarrow>
          (st\<lparr>lastProgress := max (lastProgress st) (scaledProgress (parseFloat m))\<rparr>,
           if scaledProgress (parseFloat m) > lastProgress st
           then [downloading_event (scaledProgress (parseFloat m)) (parseFloat m)] else []))"
  by (auto simp: parse_progress_def Let_def max_def split: option.splits)

text \<open>
  C3, as the code has it. A percentage \<open>p\<close> read from a chunk of either stream is scaled
  to \<open>min(5 + p * 0.6, 65)\<close>: 0 gives 5, 50 gives 35, 100 gives 65. A chunk without a
  percentage sends nothing. A chunk with one sends an event exactly when the scaled value
  is greater than \<open>lastProgress\<close>, which holds the greatest scaled value so far (5 at the
  start), not rounded; the event reports the scaled value rounded to the nearest integer.
  The reported values of a download never decrease and lie between 5 and 65.
\<close>

theorem download_progress_gate:
  "scaledProgress 0 = 5 \<and> scaledProgress 50 = 35 \<and> scaledProgress 100 = 65
   \<and> scaledProgress p = min (5 + p * (6 / 10)) 65
   \<and> (match_percent out = None \<longrightarrow>
         snd (yt_on_data (src, out) st) = []
         \<and> lastProgress (fst (yt_on_data (src, out) st)) = lastProgress st)
   \<and> (match_percent out = Some m \<longrightarrow>
         snd (yt_on_data (src, out) st)
           = (if scaledProgress (parseFloat m) > lastProgress st
              then [\<lparr>status = Downloading, progress = Math_round (scaledProgress (parseFloat m)),
                     message = Some (''Mengunduh video... '' @ show_int (Math_round (parseFloat m)) @ ''%''),
                     filename = None\<rparr>]
              else [])
         \<and> lastProgress (fst (yt_on_data (src, out) st))
           = max (lastProgress st) (scaledProgress (parseFloat m)))
   \<and> sorted (map progress (snd (yt_run chunks yt_initial)))
   \<and> (\<forall>d\<in>set (snd (yt_run chunks yt_initial)). 5 \<le> progress d \<and> progress d \<le> 65)"
proof -
  have a: "scaledProgress 0 = 5 \<and> scaledProgress 50 = 35 \<and> scaledProgress 100 = 65"
    by (simp add: scaledProgress_def)
  have b: "scaledProgress p = min (5 + p * (6 / 10)) 65"
    by (simp add: scaledProgress_def)
  have c: "match_percent out = None \<longrightarrow>
         snd (yt_on_data (src, out) st) = []
         \<and> lastProgress (fst (yt_on_data (src, out) st)) = lastProgress st"
    by (cases src) (simp_all add: parse_progress_gate)
  have d: "match_percent out = Some m \<longrightarrow>
         snd (yt_on_data (src, out) st)
           = (if scaledProgress (parseFloat m) > lastProgress st
              then [\<lparr>status = Downloading, progress = Math_round (scaledProgress (parseFloat m)),
                     message = Some (''Mengunduh video... '' @ show_int (Math_round (parseFloat m)) @ ''%''),
                     filename = None\<rparr>]
              else [])
         \<and> lastProgress (fst (yt_on_data (src, out) st))
           = max (lastProgress st) (scaledProgress (parseFloat m))"
    by (cases src) (simp_all add: parse_progress_gate downloading_event_def)
  obtain st' evs where y: "yt_run chunks yt_initial = (st', evs)"
    by (cases "yt_run chunks yt_initial")
  from yt_run_initial[OF y] have e: "sorted (map progress (snd (yt_run chunks yt_initial)))
   \<and> (\<forall>d\<in>set (snd (yt_run chunks yt_initial)). 5 \<le> progress d \<and> progress d \<le> 65)"
    by (simp add: y)
  from a b c d e show ?thesis by blast
qed

theorem download_progress_gate_witness:
  "match_percent ''[download]  50.0% of 3MiB'' = Some ''50.0''
   \<and> match_percent ''WARNING: slow'' = None
   \<and> snd (yt_on_data (Stderr, ''WARNING: slow'') yt_initial) = []
   \<and> map progress (snd (yt_on_data (Stdout, ''[download]  50.0% of 3MiB'') yt_initial)) = [35]
   \<and> lastProgress (fst (yt_on_data (Stdout, ''[download]  50.0% of 3MiB'') yt_initial)) = 35
   \<and> snd (yt_run (yt_chunks env_ok) yt_initial) \<noteq> []
   \<and> list_all (\<lambda>d. 5 \<le> progress d \<and> progress d \<le> 65) (snd (yt_run (yt_chunks env_ok) yt_initial))"
proof -
  have m1: "match_percent ''[download]  50.0% of 3MiB'' = Some ''50.0''" by code_simp
  have m2: "match_percent ''WARNING: slow'' = None" by code_simp
  have pf: "parseFloat ''50.0'' = 50" by code_simp
  have sc: "scaledProgress 50 = 35" by (simp add: scaledProgress_def)
  have r35: "Math_round 35 = 35" using Math_round_of_int[of 35] by simp
  note g1 = download_progress_gate
    [of 0 "''WARNING: slow''" Stderr yt_initial "''50.0''" "yt_chunks env_ok"]
  note g2 = download_progress_gate
    [of 0 "''[download]  50.0% of 3MiB''" Stdout yt_initial "''50.0''" "yt_chunks env_ok"]
  from g1 m2 have w1: "snd (yt_on_data (Stderr, ''WARNING: slow'') yt_initial) = []" by blast
  from g2 m1 have w2: "map progress (snd (yt_on_data (Stdout, ''[download]  50.0% of 3MiB'') yt_initial)) = [35]"
    by (simp add: pf sc r35 yt_initial_def)
  from g2 m1 have w3: "lastProgress (fst (yt_on_data (Stdout, ''[download]  50.0% of 3MiB'') yt_initial)) = 35"
    by (simp add: pf sc yt_initial_def)
  have w4: "snd (yt_run (yt_chunks env_ok) yt_initial) \<noteq> []" by code_simp
  from g2 have w5: "list_all (\<lambda>d. 5 \<le> progress d \<and> progress d \<le> 65) (snd (yt_run (yt_chunks env_ok) yt_initial))"
    by (simp add: list_all_iff)
  from m1 m2 w1 w2 w3 w4 w5 show ?thesis by blast
qed

text \<open>
  C3 as stated fails: after \<open>1.0%\<close> the reported percent is 6; \<open>1.5%\<close> scales to 5.9, which
  does not exceed 6, and is forwarded all the same, as 6 again.
\<close>

theorem forwarded_without_increase:
  "map progress (snd (yt_on_data (Stdout, chunk_1) yt_initial)) = [6]
   \<and> match_percent chunk_1_5 = Some ''1.5''
   \<and> \<not> scaledProgress (parseFloat ''1.5'') > 6
   \<and> map progress (snd (yt_on_data (Stdout, chunk_1_5) (fst (yt_on_data (Stdout, chunk_1) yt_initial))))
       = [6]"
  by code_simp

section \<open>Failure of a stage\<close>

lemma startsWith_set: "startsWith s p \<Longrightarrow> set p \<subseteq> set s"
  unfolding startsWith_def by (metis set_take_subset)

lemma includes_str_set: "includes_str s sub \<Longrightarrow> set sub \<subseteq> set s"
proof (induction s)
  case Nil
  then show ?case by simp
next
  case (Cons c cs)
  from Cons.prems have "startsWith (c # cs) sub \<or> includes_str cs sub" by simp
  then show ?case
  proof
    assume "startsWith (c # cs) sub"
    then show ?thesis by (rule startsWith_set)
  next
    assume "includes_str cs sub"
    with Cons.IH show ?thesis by auto
  qed
qed

lemma parse_progress_errorOutput:
  "errorOutput (fst (parse_progress out st)) = errorOutput st"
  by (simp add: parse_progress_def Let_def split: option.splits)

lemma yt_run_errorOutput:
  "errorOutput (fst (yt_run chunks st))
     = errorOutput st @ concat (map snd (filter (\<lambda>chunk. fst chunk = Stderr) chunks))"
proof (induction chunks arbitrary: st)
  case Nil
  show ?case by simp
next
  case (Cons chunk chunks)
  obtain src out where c: "chunk = (src, out)" by (cases chunk)
  show ?case
    by (cases src)
       (simp_all add: c Cons.IH parse_progress_errorOutput split_beta Let_def)
qed

lemma processVideo_events:
  "fst (processVideo taskId opts e) =
     (case try_body taskId opts e of
        (evs, fs, Inr u) \<Rightarrow> evs
      | (evs, fs, Inl err) \<Rightarrow> evs @ [error_event err])"
  by (simp add: processVideo_def split: prod.splits sum.splits)

text \<open>
  C5, as the code has it. When the downloader closes with a code other than 0, the task
  ends with an error event whose message carries the exit code and the first 200
  characters of everything the downloader wrote to \<open>stderr\<close>. When the cutter closes with a
  code other than 0, the message carries the exit code and no captured text.
\<close>

theorem stage_failure_message:
  "(yt_end e = Closed code \<and> code \<noteq> Some 0 \<longrightarrow>
      last (fst (processVideo taskId opts e))
        = \<lparr>status = Error, progress = 0,
           message = Some (''Error: Download gagal (code '' @ show_code code @ ''): ''
                           @ take 200 (concat (map snd (filter (\<lambda>chunk. fst chunk = Stderr)
                                                              (yt_chunks e))))),
           filename = None\<rparr>)
   \<and> (yt_end e = Closed (Some 0)
       \<and> findDownloadedFile (dir_downloaded e) (tempFile opts) \<in> set (dir_downloaded e)
       \<and> ff_end e = Closed code \<and> code \<noteq> Some 0 \<longrightarrow>
      last (fst (processVideo taskId opts e))
        = \<lparr>status = Error, progress = 0,
           message = Some (''Error: ffmpeg exited with code '' @ show_code code),
           filename = None\<rparr>)"
proof -
  obtain st evs_yt where y: "yt_run (yt_chunks e) yt_initial = (st, evs_yt)"
    by (cases "yt_run (yt_chunks e) yt_initial")
  have eo: "errorOutput st
             = concat (map snd (filter (\<lambda>chunk. fst chunk = Stderr) (yt_chunks e)))"
    using yt_run_errorOutput[of "yt_chunks e" yt_initial] unfolding y
    by (simp add: yt_initial_def)
  have a: "last (fst (processVideo taskId opts e))
        = \<lparr>status = Error, progress = 0,
           message = Some (''Error: Download gagal (code '' @ show_code code @ ''): ''
                           @ take 200 (concat (map snd (filter (\<lambda>chunk. fst chunk = Stderr)
                                                              (yt_chunks e))))),
           filename = None\<rparr>"
    if "yt_end e = Closed code" "code \<noteq> Some 0"
    using that
    by (simp add: processVideo_events try_body_def y eo error_event_def ev_def substring0_def)
  have b: "last (fst (processVideo taskId opts e))
        = \<lparr>status = Error, progress = 0,
           message = Some (''Error: ffmpeg exited with code '' @ show_code code),
           filename = None\<rparr>"
    if "yt_end e = Closed (Some 0)"
       "findDownloadedFile (dir_downloaded e) (tempFile opts) \<in> set (dir_downloaded e)"
       "ff_end e = Closed code" "code \<noteq> Some 0"
    using that
    by (simp add: processVideo_events try_body_def y error_event_def ev_def Let_def)
  from a b show ?thesis by blast
qed

theorem stage_failure_message_witness:
  "yt_end env_yt_fails = Closed (Some 1) \<and> Some (1::int) \<noteq> Some 0
   \<and> message (last (fst (processVideo example_id example_opts env_yt_fails)))
       = Some ''Error: Download gagal (code 1): ERROR: unavailable''
   \<and> yt_end env_ff_fails = Closed (Some 0)
   \<and> findDownloadedFile (dir_downloaded env_ff_fails) (tempFile example_opts)
        \<in> set (dir_downloaded env_ff_fails)
   \<and> ff_end env_ff_fails = Closed (Some 1)
   \<and> message (last (fst (processVideo example_id example_opts env_ff_fails)))
       = Some ''Error: ffmpeg exited with code 1''"
proof -
  have h1: "yt_end env_yt_fails = Closed (Some 1)" by (simp add: env_yt_fails_def env_ok_def)
  have h2: "Some (1::int) \<noteq> Some 0" by simp
  have h3: "yt_end env_ff_fails = Closed (Some 0)" by (simp add: env_ff_fails_def env_ok_def)
  have h4: "findDownloadedFile (dir_downloaded env_ff_fails) (tempFile example_opts)
              \<in> set (dir_downloaded env_ff_fails)"
    by code_simp
  have h5: "ff_end env_ff_fails = Closed (Some 1)" by (simp add: env_ff_fails_def env_ok_def)
  have s1: "show_int 1 = ''1''" by code_simp
  have c1: "yt_chunks env_yt_fails = [(Stderr, ''ERROR: unavailable'')]"
    by (simp add: env_yt_fails_def env_ok_def)
  from stage_failure_message[of env_yt_fails "Some 1" example_id example_opts] h1 h2
  have w1: "message (last (fst (processVideo example_id example_opts env_yt_fails)))
       = Some ''Error: Download gagal (code 1): ERROR: unavailable''"
    by (simp add: s1 c1)
  from stage_failure_message[of env_ff_fails "Some 1" example_id example_opts] h2 h3 h4 h5
  have w2: "message (last (fst (processVideo example_id example_opts env_ff_fails)))
       = Some ''Error: ffmpeg exited with code 1''"
    by (simp add: s1)
  from h1 h2 w1 h3 h4 h5 w2 show ?thesis by blast
qed

text \<open>
  C5 as stated fails: with 201 characters captured, the message of a download that
  exits with code 1 holds the first 200 of them and not the last one, so it carries no
  final part of the text, of any length from 200 to 500.
\<close>

theorem error_text_is_head_not_tail:
  "yt_settle (Closed (Some 1)) long_stderr
     = Inl (''Download gagal (code 1): '' @ replicate 200 CHR ''a'')
   \<and> \<not> (\<exists>n. 200 \<le> n \<and> n \<le> 500
          \<and> includes_str (''Download gagal (code 1): '' @ replicate 200 CHR ''a'')
               (drop (length long_stderr - n) long_stderr))"
proof -
  have s1: "show_int 1 = ''1''" by code_simp
  have a: "yt_settle (Closed (Some 1)) long_stderr
     = Inl (''Download gagal (code 1): '' @ replicate 200 CHR ''a'')"
    by (simp add: s1 long_stderr_def substring0_def)
  have z: "CHR ''Z'' \<notin> set (''Download gagal (code 1): '' @ replicate 200 CHR ''a'')"
    by simp
  have b: "CHR ''Z'' \<in> set (drop (length long_stderr - n) long_stderr)" if "200 \<le> n" for n
    using that by (simp add: long_stderr_def)
  have c: "\<not> includes_str (''Download gagal (code 1): '' @ replicate 200 CHR ''a'')
               (drop (length long_stderr - n) long_stderr)" if "200 \<le> n" for n
    using includes_str_set b[OF that] z by blast
  from a c show ?thesis by blast
qed

section \<open>Progress while trimming\<close>

lemma processVideo_shape:
  assumes y: "yt_run (yt_chunks e) yt_initial = (st, evs_yt)"
  shows
   "(\<exists>err. yt_settle (yt_end e) (errorOutput st) = Inl err
        \<and> processVideo taskId opts e
            = (start_event # evs_yt @ [error_event err],
               cleanup_error taskId opts e (dir_downloaded e)))
  \<or> (yt_settle (yt_end e) (errorOutput st) = Inr ()
        \<and> findDownloadedFile (dir_downloaded e) (tempFile opts) \<notin> set (dir_downloaded e)
        \<and> processVideo taskId opts e
            = (start_event # evs_yt @ [downloaded_event, error_event ''File download tidak ditemukan''],
               cleanup_error taskId opts e (dir_downloaded e)))
  \<or> (\<exists>err. yt_settle (yt_end e) (errorOutput st) = Inr ()
        \<and> findDownloadedFile (dir_downloaded e) (tempFile opts) \<in> set (dir_downloaded e)
        \<and> ff_settle (ff_end e) = Inl err
        \<and> processVideo taskId opts e
            = (start_event # evs_yt @ [downloaded_event, trim_start_event] @ ff_run (ff_chunks e)
                 @ [error_event err],
               cleanup_error taskId opts e (dir_cut e)))
  \<or> (yt_settle (yt_end e) (errorOutput st) = Inr ()
        \<and> findDownloadedFile (dir_downloaded e) (tempFile opts) \<in> set (dir_downloaded e)
        \<and> ff_settle (ff_end e) = Inr ()
        \<and> finalFile opts \<notin> set (cleanup_success taskId opts e (dir_cut e))
        \<and> processVideo taskId opts e
            = (start_event # evs_yt @ [downloaded_event, trim_start_event] @ ff_run (ff_chunks e)
                 @ [cleaning_event, error_event ''File hasil trim tidak ditemukan''],
               cleanup_error taskId opts e (cleanup_success taskId opts e (dir_cut e))))
  \<or> (yt_settle (yt_end e) (errorOutput st) = Inr ()
        \<and> findDownloadedFile (dir_downloaded e) (tempFile opts) \<in> set (dir_downloaded e)
        \<and> ff_settle (ff_end e) = Inr ()
        \<and> finalFile opts \<in> set (cleanup_success taskId opts e (dir_cut e))
        \<and> processVideo taskId opts e
            = (start_event # evs_yt @ [downloaded_event, trim_start_event] @ ff_run (ff_chunks e)
                 @ [cleaning_event, complete_event opts],
               cleanup_success taskId opts e (dir_cut e)))"
  using try_body_shape[OF y, of taskId opts]
  by (elim disjE exE conjE) (simp_all add: processVideo_def)

lemma processVideo_event_kinds:
  assumes y: "yt_run (yt_chunks e) yt_initial = (st, evs_yt)"
    and d: "d \<in> set (fst (processVideo taskId opts e))"
  shows "d = start_event \<or> d \<in> set evs_yt \<or> d = downloaded_event \<or> d = trim_start_event
         \<or> d = trimming_event \<or> d = cleaning_event \<or> d = complete_event opts
         \<or> (\<exists>err. d = error_event err)"
proof -
  have F: "\<And>x. x \<in> set (ff_run (ff_chunks e)) \<Longrightarrow> x = trimming_event"
    by (rule ff_run_events)
  from processVideo_shape[OF y, of taskId opts] d show ?thesis
    by (elim disjE exE conjE) (use F in auto)
qed

text \<open>
  C6, as the code has it. Entering the trimming state reports 70; every chunk of the
  cutter's error stream that contains \<open>time=\<close> reports 85; no other event has the status
  \<open>trimming\<close>, and no event of any run reports 95. When the cutter exits with 0, the
  event that follows the trimming events is \<open>cleaning\<close> at 96.
\<close>

theorem trimming_progress:
  "progress trim_start_event = 70 \<and> progress trimming_event = 85
   \<and> status cleaning_event = Cleaning \<and> progress cleaning_event = 96
   \<and> (\<forall>d\<in>set (fst (processVideo taskId opts e)).
         (status d = Trimming \<longrightarrow> d = trim_start_event \<or> d = trimming_event)
         \<and> progress d \<noteq> 95)
   \<and> (yt_end e = Closed (Some 0)
       \<and> findDownloadedFile (dir_downloaded e) (tempFile opts) \<in> set (dir_downloaded e)
       \<and> ff_end e = Closed (Some 0) \<longrightarrow>
       (\<exists>pre post.
          fst (processVideo taskId opts e)
            = pre @ [trim_start_event]
              @ replicate (length (filter (\<lambda>out. includes_str out ''time='') (ff_chunks e)))
                          trimming_event
              @ [cleaning_event] @ post
          \<and> (\<forall>d\<in>set (pre @ post). status d \<noteq> Trimming)))"
proof -
  obtain st evs_yt where y: "yt_run (yt_chunks e) yt_initial = (st, evs_yt)"
    by (cases "yt_run (yt_chunks e) yt_initial")
  from yt_run_initial[OF y]
  have Y: "\<And>d. d \<in> set evs_yt \<Longrightarrow> status d = Downloading \<and> progress d \<le> 65"
    by simp
  have F: "\<And>d. d \<in> set (ff_run (ff_chunks e)) \<Longrightarrow> d = trimming_event"
    by (rule ff_run_events)
  have vals: "progress trim_start_event = 70 \<and> progress trimming_event = 85
     \<and> status cleaning_event = Cleaning \<and> progress cleaning_event = 96"
    by (simp add: trim_start_event_def trimming_event_def cleaning_event_def ev_def)
  have all: "(status d = Trimming \<longrightarrow> d = trim_start_event \<or> d = trimming_event)
         \<and> progress d \<noteq> 95"
    if "d \<in> set (fst (processVideo taskId opts e))" for d
  proof -
    from processVideo_event_kinds[OF y that]
    consider "d = start_event" | "d \<in> set evs_yt" | "d = downloaded_event"
      | "d = trim_start_event" | "d = trimming_event" | "d = cleaning_event"
      | "d = complete_event opts" | err where "d = error_event err"
      by blast
    then show ?thesis
    proof cases
      case 1 then show ?thesis by (simp add: start_event_def ev_def)
    next
      case 2 with Y[of d] show ?thesis by simp
    next
      case 3 then show ?thesis by (simp add: downloaded_event_def ev_def)
    next
      case 4 then show ?thesis by (simp add: trim_start_event_def ev_def)
    next
      case 5 then show ?thesis by (simp add: trimming_event_def)
    next
      case 6 then show ?thesis by (simp add: cleaning_event_def ev_def)
    next
      case 7 then show ?thesis by (simp add: complete_event_def)
    next
      case 8 then show ?thesis by (simp add: error_event_def ev_def)
    qed
  qed
  have ok: "\<exists>pre post.
          fst (processVideo taskId opts e)
            = pre @ [trim_start_event]
              @ replicate (length (filter (\<lambda>out. includes_str out ''time='') (ff_chunks e)))
                          trimming_event
              @ [cleaning_event] @ post
          \<and> (\<forall>d\<in>set (pre @ post). status d \<noteq> Trimming)"
    if h: "yt_end e = Closed (Some 0)"
       "findDownloadedFile (dir_downloaded e) (tempFile opts) \<in> set (dir_downloaded e)"
       "ff_end e = Closed (Some 0)"
  proof -
    have pre_ok: "\<forall>d\<in>set (start_event # evs_yt @ [downloaded_event]). status d \<noteq> Trimming"
      using Y by (auto simp: start_event_def downloaded_event_def ev_def)
    from processVideo_shape[OF y, of taskId opts] h
    consider
      (missing) "fst (processVideo taskId opts e)
            = (start_event # evs_yt @ [downloaded_event]) @ [trim_start_event] @ ff_run (ff_chunks e)
                 @ [cleaning_event] @ [error_event ''File hasil trim tidak ditemukan'']"
    | (present) "fst (processVideo taskId opts e)
            = (start_event # evs_yt @ [downloaded_event]) @ [trim_start_event] @ ff_run (ff_chunks e)
                 @ [cleaning_event] @ [complete_event opts]"
      by (elim disjE exE conjE) simp_all
    then show ?thesis
    proof cases
      case missing
      have "\<forall>d\<in>set ((start_event # evs_yt @ [downloaded_event])
                       @ [error_event ''File hasil trim tidak ditemukan'']). status d \<noteq> Trimming"
        using pre_ok by (auto simp: error_event_def ev_def)
      with missing show ?thesis unfolding ff_run_replicate by blast
    next
      case present
      have "\<forall>d\<in>set ((start_event # evs_yt @ [downloaded_event]) @ [complete_event opts]).
              status d \<noteq> Trimming"
        using pre_ok by (auto simp: complete_event_def)
      with present show ?thesis unfolding ff_run_replicate by blast
    qed
  qed
  from vals all ok show ?thesis by blast
qed

theorem trimming_progress_witness:
  "yt_end env_ok = Closed (Some 0)
   \<and> findDownloadedFile (dir_downloaded env_ok) (tempFile example_opts) \<in> set (dir_downloaded env_ok)
   \<and> ff_end env_ok = Closed (Some 0)
   \<and> trim_start_event \<in> set (fst (processVideo example_id example_opts env_ok))
   \<and> status trim_start_event = Trimming
   \<and> (\<exists>pre post.
          fst (processVideo example_id example_opts env_ok)
            = pre @ [trim_start_event] @ replicate 1 trimming_event @ [cleaning_event] @ post)"
proof -
  have h1: "yt_end env_ok = Closed (Some 0)" by (simp add: env_ok_def)
  have h2: "findDownloadedFile (dir_downloaded env_ok) (tempFile example_opts)
              \<in> set (dir_downloaded env_ok)"
    by code_simp
  have h3: "ff_end env_ok = Closed (Some 0)" by (simp add: env_ok_def)
  have n: "length (filter (\<lambda>out. includes_str out ''time='') (ff_chunks env_ok)) = 1"
    by code_simp
  have m: "trim_start_event \<in> set (fst (processVideo example_id example_opts env_ok))"
    by code_simp
  have s: "status trim_start_event = Trimming" by (simp add: trim_start_event_def ev_def)
  from trimming_progress[of example_id example_opts env_ok] h1 h2 h3
  have "\<exists>pre post.
          fst (processVideo example_id example_opts env_ok)
            = pre @ [trim_start_event] @ replicate 1 trimming_event @ [cleaning_event] @ post"
    unfolding n by blast
  with h1 h2 h3 m s show ?thesis by blast
qed

text \<open>
  C6 as stated fails: in a run where the cutter exits with 0 and the task completes, no
  event reports 95; the values are 5, 35, 65, 65, 70, 85, 96, 100.
\<close>

theorem no_95_after_cut:
  "ff_end env_ok = Closed (Some 0)
   \<and> map progress (fst (processVideo example_id example_opts env_ok))
       = [5, 35, 65, 65, 70, 85, 96, 100]
   \<and> 95 \<notin> set (map progress (fst (processVideo example_id example_opts env_ok)))"
  by code_simp

section \<open>File names of a task\<close>














lemma set_unlink_all:
  "set (unlink_all target fails files) = {file \<in> set files. \<not> (target file \<and> \<not> fails file)}"
  by (simp add: unlink_all_def)










section \<open>Clean-up\<close>




section \<open>Completion\<close>

lemma not_in_image: "\<forall>d\<in>set xs. f d \<noteq> c \<Longrightarrow> c \<notin> f ` set xs"
  by blast

text \<open>
  C9. A run sends \<open>complete\<close> only as its last event, at 100, after it has found the final
  file in the directory, and the file is still there at the end of the run. If the
  downloader and the cutter both exit with 0 but the final file is not in the directory,
  the run sends no \<open>complete\<close>: it ends with the error event, and the clean-up of the
  \<open>catch\<close> block has run, so that no file containing the task id is left unless its
  deletion throws.
\<close>

theorem complete_requires_final_file:
  "(Complete \<in> status ` set (fst (processVideo taskId opts e)) \<longrightarrow>
      finalFile opts \<in> set (snd (processVideo taskId opts e))
      \<and> last (fst (processVideo taskId opts e)) = complete_event opts
      \<and> progress (complete_event opts) = 100
      \<and> Complete \<notin> status ` set (butlast (fst (processVideo taskId opts e)))
      \<and> Error \<notin> status ` set (fst (processVideo taskId opts e)))
   \<and> (yt_end e = Closed (Some 0)
       \<and> findDownloadedFile (dir_downloaded e) (tempFile opts) \<in> set (dir_downloaded e)
       \<and> ff_end e = Closed (Some 0)
       \<and> finalFile opts \<notin> set (dir_cut e) \<longrightarrow>
      last (fst (processVideo taskId opts e)) = error_event ''File hasil trim tidak ditemukan''
      \<and> status (last (fst (processVideo taskId opts e))) = Error
      \<and> Complete \<notin> status ` set (fst (processVideo taskId opts e))
      \<and> snd (processVideo taskId opts e)
          = cleanup_error taskId opts e (cleanup_success taskId opts e (dir_cut e))
      \<and> (\<forall>file\<in>set (snd (processVideo taskId opts e)).
            includes_str file taskId \<longrightarrow> unlink_fails e file))"
proof -
  obtain st evs_yt where y: "yt_run (yt_chunks e) yt_initial = (st, evs_yt)"
    by (cases "yt_run (yt_chunks e) yt_initial")
  from yt_run_initial[OF y]
  have Y: "\<And>d. d \<in> set evs_yt \<Longrightarrow> status d = Downloading" by simp
  have F: "\<And>d. d \<in> set (ff_run (ff_chunks e)) \<Longrightarrow> status d = Trimming"
    by (auto dest!: ff_run_events simp: trimming_event_def)
  have st: "status start_event = Downloading" "status downloaded_event = Downloading"
    "status trim_start_event = Trimming" "status cleaning_event = Cleaning"
    "status (complete_event opts) = Complete" "\<And>m. status (error_event m) = Error"
    by (simp_all add: start_event_def downloaded_event_def trim_start_event_def
          cleaning_event_def complete_event_def error_event_def ev_def)
  have common: "\<forall>d\<in>set (start_event # evs_yt @ [downloaded_event, trim_start_event]
                     @ ff_run (ff_chunks e) @ [cleaning_event]).
                  status d \<noteq> Complete \<and> status d \<noteq> Error"
    using Y F st by auto
  have a: "finalFile opts \<in> set (snd (processVideo taskId opts e))
      \<and> last (fst (processVideo taskId opts e)) = complete_event opts
      \<and> progress (complete_event opts) = 100
      \<and> Complete \<notin> status ` set (butlast (fst (processVideo taskId opts e)))
      \<and> Error \<notin> status ` set (fst (processVideo taskId opts e))"
    if c: "Complete \<in> status ` set (fst (processVideo taskId opts e))"
  proof -
    from processVideo_shape[OF y, of taskId opts] c
    have p: "finalFile opts \<in> set (cleanup_success taskId opts e (dir_cut e))
        \<and> processVideo taskId opts e
            = ((start_event # evs_yt @ [downloaded_event, trim_start_event] @ ff_run (ff_chunks e)
                 @ [cleaning_event]) @ [complete_event opts],
               cleanup_success taskId opts e (dir_cut e))"
    proof (elim disjE exE conjE)
      fix err
      assume "processVideo taskId opts e
            = (start_event # evs_yt @ [error_event err],
               cleanup_error taskId opts e (dir_downloaded e))"
      with c Y F st show ?thesis by auto
    next
      assume "processVideo taskId opts e
            = (start_event # evs_yt @ [downloaded_event, error_event ''File download tidak ditemukan''],
               cleanup_error taskId opts e (dir_downloaded e))"
      with c Y F st show ?thesis by auto
    next
      fix err
      assume "processVideo taskId opts e
            = (start_event # evs_yt @ [downloaded_event, trim_start_event] @ ff_run (ff_chunks e)
                 @ [error_event err],
               cleanup_error taskId opts e (dir_cut e))"
      with c Y F st show ?thesis by auto
    next
      assume "processVideo taskId opts e
            = (start_event # evs_yt @ [downloaded_event, trim_start_event] @ ff_run (ff_chunks e)
                 @ [cleaning_event, error_event ''File hasil trim tidak ditemukan''],
               cleanup_error taskId opts e (cleanup_success taskId opts e (dir_cut e)))"
      with c Y F st show ?thesis by auto
    next
      assume "finalFile opts \<in> set (cleanup_success taskId opts e (dir_cut e))"
        "processVideo taskId opts e
            = (start_event # evs_yt @ [downloaded_event, trim_start_event] @ ff_run (ff_chunks e)
                 @ [cleaning_event, complete_event opts],
               cleanup_success taskId opts e (dir_cut e))"
      then show ?thesis by simp
    qed
    from p have q: "fst (processVideo taskId opts e)
            = (start_event # evs_yt @ [downloaded_event, trim_start_event] @ ff_run (ff_chunks e)
                 @ [cleaning_event]) @ [complete_event opts]"
      and q2: "snd (processVideo taskId opts e) = cleanup_success taskId opts e (dir_cut e)"
      by simp_all
    have bl: "butlast (fst (processVideo taskId opts e))
           = start_event # evs_yt @ [downloaded_event, trim_start_event] @ ff_run (ff_chunks e)
                 @ [cleaning_event]"
      unfolding q by (rule butlast_snoc)
    have l: "last (fst (processVideo taskId opts e)) = complete_event opts"
      unfolding q by (rule last_snoc)
    have e1: "Complete \<notin> status ` set (butlast (fst (processVideo taskId opts e)))"
      unfolding bl using common by (intro not_in_image) blast
    have "\<forall>d\<in>set ((start_event # evs_yt @ [downloaded_event, trim_start_event]
                  @ ff_run (ff_chunks e) @ [cleaning_event]) @ [complete_event opts]).
             status d \<noteq> Error"
      using common st(5) by (simp del: append.simps append_assoc)
    then have e2: "Error \<notin> status ` set (fst (processVideo taskId opts e))"
      unfolding q by (rule not_in_image)
    from p q2 l e1 e2 show ?thesis by (simp add: complete_event_def)
  qed
  have b: "last (fst (processVideo taskId opts e)) = error_event ''File hasil trim tidak ditemukan''
      \<and> status (last (fst (processVideo taskId opts e))) = Error
      \<and> Complete \<notin> status ` set (fst (processVideo taskId opts e))
      \<and> snd (processVideo taskId opts e)
          = cleanup_error taskId opts e (cleanup_success taskId opts e (dir_cut e))
      \<and> (\<forall>file\<in>set (snd (processVideo taskId opts e)).
            includes_str file taskId \<longrightarrow> unlink_fails e file)"
    if c: "yt_end e = Closed (Some 0)"
       "findDownloadedFile (dir_downloaded e) (tempFile opts) \<in> set (dir_downloaded e)"
       "ff_end e = Closed (Some 0)"
       "finalFile opts \<notin> set (dir_cut e)"
  proof -
    have nf: "finalFile opts \<notin> set (cleanup_success taskId opts e (dir_cut e))"
      using c(4) by (simp add: cleanup_success_def set_unlink_all)
    from processVideo_shape[OF y, of taskId opts] c(1,2,3) nf
    have p: "processVideo taskId opts e
            = ((start_event # evs_yt @ [downloaded_event, trim_start_event] @ ff_run (ff_chunks e)
                 @ [cleaning_event]) @ [error_event ''File hasil trim tidak ditemukan''],
               cleanup_error taskId opts e (cleanup_success taskId opts e (dir_cut e)))"
      by (elim disjE exE conjE) simp_all
    have l: "last (fst (processVideo taskId opts e)) = error_event ''File hasil trim tidak ditemukan''"
      unfolding p fst_conv by (rule last_snoc)
    have "\<forall>d\<in>set ((start_event # evs_yt @ [downloaded_event, trim_start_event]
                  @ ff_run (ff_chunks e) @ [cleaning_event])
                  @ [error_event ''File hasil trim tidak ditemukan'']).
             status d \<noteq> Complete"
      using common st(6) by (simp del: append.simps append_assoc)
    then have nc: "Complete \<notin> status ` set (fst (processVideo taskId opts e))"
      unfolding p fst_conv by (rule not_in_image)
    have rm: "\<forall>file\<in>set (snd (processVideo taskId opts e)).
            includes_str file taskId \<longrightarrow> unlink_fails e file"
      unfolding p snd_conv by (auto simp: cleanup_error_def set_unlink_all error_target_def)
    from p l nc rm st show ?thesis by simp
  qed
  from a b show ?thesis by blast
qed

theorem complete_requires_final_file_witness:
  "Complete \<in> status ` set (fst (processVideo example_id example_opts env_ok))
   \<and> finalFile example_opts \<in> set (snd (processVideo example_id example_opts env_ok))
   \<and> last (fst (processVideo example_id example_opts env_ok)) = complete_event example_opts
   \<and> yt_end env_no_output = Closed (Some 0)
   \<and> findDownloadedFile (dir_downloaded env_no_output) (tempFile example_opts)
        \<in> set (dir_downloaded env_no_output)
   \<and> ff_end env_no_output = Closed (Some 0)
   \<and> finalFile example_opts \<notin> set (dir_cut env_no_output)
   \<and> status (last (fst (processVideo example_id example_opts env_no_output))) = Error
   \<and> Complete \<notin> status ` set (fst (processVideo example_id example_opts env_no_output))
   \<and> snd (processVideo example_id example_opts env_no_output) = [''temp_task_18_xyz.mp4'']"
proof -
  have c: "Complete \<in> status ` set (fst (processVideo example_id example_opts env_ok))"
    by code_simp
  have h1: "yt_end env_no_output = Closed (Some 0)" by (simp add: env_no_output_def env_ok_def)
  have h2: "findDownloadedFile (dir_downloaded env_no_output) (tempFile example_opts)
        \<in> set (dir_downloaded env_no_output)"
    by code_simp
  have h3: "ff_end env_no_output = Closed (Some 0)" by (simp add: env_no_output_def env_ok_def)
  have h4: "finalFile example_opts \<notin> set (dir_cut env_no_output)" by code_simp
  have k: "cleanup_error example_id example_opts env_no_output
             (cleanup_success example_id example_opts env_no_output (dir_cut env_no_output))
           = [''temp_task_18_xyz.mp4'']"
    by code_simp
  from complete_requires_final_file[of example_id example_opts env_ok] c
  have a: "finalFile example_opts \<in> set (snd (processVideo example_id example_opts env_ok))
     \<and> last (fst (processVideo example_id example_opts env_ok)) = complete_event example_opts"
    by blast
  from complete_requires_final_file[of example_id example_opts env_no_output] h1 h2 h3 h4
  have b: "status (last (fst (processVideo example_id example_opts env_no_output))) = Error
     \<and> Complete \<notin> status ` set (fst (processVideo example_id example_opts env_no_output))
     \<and> snd (processVideo example_id example_opts env_no_output)
          = cleanup_error example_id example_opts env_no_output
             (cleanup_success example_id example_opts env_no_output (dir_cut env_no_output))"
    by blast
  from b k have b3: "snd (processVideo example_id example_opts env_no_output) = [''temp_task_18_xyz.mp4'']"
    by simp
  from c a h1 h2 h3 h4 b b3 show ?thesis by blast
qed

section \<open>The progress bus\<close>

lemma sendProgress_written:
  "written (sendProgress taskId data b) res
     = (if progressStreams b taskId = Some res then written b res @ [data] else written b res)"
  by (auto simp: sendProgress_def stream_write_def Let_def split: option.splits)

lemma sendProgress_streams:
  "progressStreams (sendProgress taskId data b) = progressStreams b"
  by (simp add: sendProgress_def stream_write_def Let_def split: option.splits)

lemma sendProgress_taskProgress:
  "taskProgress (sendProgress taskId data b) = (taskProgress b)(taskId \<mapsto> data)"
  by (simp add: sendProgress_def stream_write_def Let_def split: option.splits)

lemma publish_streams: "progressStreams (publish taskId evs b) = progressStreams b"
  unfolding publish_def
  by (induction evs arbitrary: b) (simp_all add: sendProgress_streams)

lemma publish_written:
  "written (publish taskId evs b) res
     = (if progressStreams b taskId = Some res then written b res @ evs else written b res)"
  unfolding publish_def
proof (induction evs arbitrary: b)
  case Nil
  show ?case by simp
next
  case (Cons data evs)
  show ?case
    by (simp add: Cons.IH sendProgress_written sendProgress_streams)
qed

lemma publish_taskProgress:
  "taskProgress (publish taskId evs b) taskId
     = (if evs = [] then taskProgress b taskId else Some (last evs))"
  unfolding publish_def
proof (induction evs arbitrary: b)
  case Nil
  show ?case by simp
next
  case (Cons data evs)
  show ?case
    by (simp add: Cons.IH sendProgress_taskProgress)
qed

lemma get_progress_fields:
  "written (get_progress taskId res b) = (written b)(res := written b res @ [connected_event])"
  "progressStreams (get_progress taskId res b) = (progressStreams b)(taskId \<mapsto> res)"
  "taskProgress (get_progress taskId res b) = taskProgress b"
  by (simp_all add: get_progress_def stream_write_def Let_def)

text \<open>
  C10. A subscription writes \<open>{status: 'connected', progress: 0}\<close> on its response,
  whatever the bus holds for the task, and registers the response as the task's sink in
  place of any earlier one. Every event published for the task afterwards is written
  after that message, in order; a sink registered before gets none of them.
\<close>

theorem subscription_starts_connected:
  "written (get_progress taskId res b) res = written b res @ [connected_event]
   \<and> status connected_event = Connected \<and> progress connected_event = 0
   \<and> progressStreams (get_progress taskId res b) taskId = Some res
   \<and> written (publish taskId evs (get_progress taskId res b)) res
       = written b res @ [connected_event] @ evs
   \<and> (progressStreams b taskId = Some old \<and> old \<noteq> res \<longrightarrow>
        written (publish taskId evs (get_progress taskId res b)) old = written b old)"
  by (simp add: publish_written get_progress_fields connected_event_def)

theorem subscription_starts_connected_witness:
  "progressStreams (get_progress example_id 1 empty_bus) example_id = Some 1
   \<and> (1::nat) \<noteq> 2
   \<and> written (publish example_id (fst (processVideo example_id example_opts env_ok))
                (get_progress example_id 2 (get_progress example_id 1 empty_bus))) 1
       = [connected_event]
   \<and> written (publish example_id (fst (processVideo example_id example_opts env_ok))
                (get_progress example_id 2 (get_progress example_id 1 empty_bus))) 2
       = connected_event # fst (processVideo example_id example_opts env_ok)"
proof -
  have r: "progressStreams (get_progress example_id 1 empty_bus) example_id = Some 1"
    by (simp add: get_progress_fields)
  have w1: "written (get_progress example_id 1 empty_bus) 1 = [connected_event]"
    by (simp add: get_progress_fields empty_bus_def)
  have w2: "written (get_progress example_id 1 empty_bus) 2 = []"
    by (simp add: get_progress_fields empty_bus_def)
  have n: "(1::nat) \<noteq> 2" by simp
  note T = subscription_starts_connected
    [of example_id 2 "get_progress example_id 1 empty_bus"
        "fst (processVideo example_id example_opts env_ok)" 1]
  from T r n have a: "written (publish example_id (fst (processVideo example_id example_opts env_ok))
                (get_progress example_id 2 (get_progress example_id 1 empty_bus))) 1
       = [connected_event]"
    unfolding w1 by blast
  from T have b: "written (publish example_id (fst (processVideo example_id example_opts env_ok))
                (get_progress example_id 2 (get_progress example_id 1 empty_bus))) 2
       = connected_event # fst (processVideo example_id example_opts env_ok)"
    unfolding w2 by simp
  from r n a b show ?thesis by blast
qed

text \<open>
  C2, as the code has it. A subscription writes the \<open>connected\<close> message and nothing
  else: it does not read \<open>taskProgress\<close>. So when the events of a task were published
  while a response was not registered for it, that response, subscribing afterwards,
  holds the \<open>connected\<close> message alone after whatever it held before; the last event stays
  stored in \<open>taskProgress\<close> and is not sent.
\<close>

theorem subscription_replays_nothing:
  "taskProgress (get_progress taskId res b) = taskProgress b
   \<and> (progressStreams b taskId \<noteq> Some res \<longrightarrow>
        written (get_progress taskId res (publish taskId evs b)) res
          = written b res @ [connected_event])
   \<and> (evs \<noteq> [] \<longrightarrow>
        taskProgress (get_progress taskId res (publish taskId evs b)) taskId = Some (last evs))"
  by (simp add: get_progress_fields publish_written publish_taskProgress)

theorem subscription_replays_nothing_witness:
  "progressStreams empty_bus example_id \<noteq> Some 1
   \<and> fst (processVideo example_id example_opts env_ok) \<noteq> []
   \<and> written (get_progress example_id 1
                (publish example_id (fst (processVideo example_id example_opts env_ok)) empty_bus)) 1
       = [connected_event]
   \<and> taskProgress (get_progress example_id 1
                (publish example_id (fst (processVideo example_id example_opts env_ok)) empty_bus))
         example_id
       = Some (complete_event example_opts)"
proof -
  have a: "progressStreams empty_bus example_id \<noteq> Some 1" by (simp add: empty_bus_def)
  have b: "fst (processVideo example_id example_opts env_ok) \<noteq> []" by code_simp
  have c: "last (fst (processVideo example_id example_opts env_ok)) = complete_event example_opts"
    by code_simp
  have w: "written empty_bus 1 = []" by (simp add: empty_bus_def)
  note T = subscription_replays_nothing
    [of example_id 1 empty_bus "fst (processVideo example_id example_opts env_ok)"]
  from T a have d: "written (get_progress example_id 1
                (publish example_id (fst (processVideo example_id example_opts env_ok)) empty_bus)) 1
       = [connected_event]"
    unfolding w by simp
  from T b have e: "taskProgress (get_progress example_id 1
                (publish example_id (fst (processVideo example_id example_opts env_ok)) empty_bus))
         example_id
       = Some (complete_event example_opts)"
    unfolding c by blast
  from a b d e show ?thesis by blast
qed

text \<open>
  C2 as stated fails: after a task has completed with nobody subscribed, its snapshot
  \<open>{status: 'complete', progress: 100, filename: 'clip.mp4'}\<close> is stored, and a
  subscriber receives the \<open>connected\<close> message and not the snapshot.
\<close>

theorem snapshot_not_delivered:
  "taskProgress (publish example_id (fst (processVideo example_id example_opts env_ok)) empty_bus)
     example_id
     = Some \<lparr>status = Complete, progress = 100, message = Some ''Selesai! Mengunduh file...'',
             filename = Some ''clip.mp4''\<rparr>
   \<and> written (get_progress example_id 1
                (publish example_id (fst (processVideo example_id example_opts env_ok)) empty_bus)) 1
       = [\<lparr>status = Connected, progress = 0, message = None, filename = None\<rparr>]
   \<and> \<lparr>status = Complete, progress = 100, message = Some ''Selesai! Mengunduh file...'',
        filename = Some ''clip.mp4''\<rparr>
       \<notin> set (written (get_progress example_id 1
                (publish example_id (fst (processVideo example_id example_opts env_ok)) empty_bus)) 1)"
proof -
  have b: "fst (processVideo example_id example_opts env_ok) \<noteq> []" by code_simp
  have c: "last (fst (processVideo example_id example_opts env_ok))
            = \<lparr>status = Complete, progress = 100, message = Some ''Selesai! Mengunduh file...'',
               filename = Some ''clip.mp4''\<rparr>"
    by code_simp
  have s: "taskProgress (publish example_id (fst (processVideo example_id example_opts env_ok)) empty_bus)
     example_id
     = Some \<lparr>status = Complete, progress = 100, message = Some ''Selesai! Mengunduh file...'',
             filename = Some ''clip.mp4''\<rparr>"
    using b c by (simp add: publish_taskProgress)
  have w: "written (get_progress example_id 1
                (publish example_id (fst (processVideo example_id example_opts env_ok)) empty_bus)) 1
       = [\<lparr>status = Connected, progress = 0, message = None, filename = None\<rparr>]"
    by (simp add: get_progress_fields publish_written empty_bus_def connected_event_def)
  from s w show ?thesis by simp
qed

end
